theory Spec2Isabelle
  imports Complex_Main
begin

section \<open>LeNet-5 as written in posts/lenet.ipynb\<close>

text \<open>
  The notebook defines three classes on top of the tensor library it imports:
  \<^verbatim>\<open>LenetPool\<close>, \<^verbatim>\<open>LenetSigmoid\<close> and \<^verbatim>\<open>Lenet\<close>, and the function \<^verbatim>\<open>run_tests\<close>.
  The library operations they call (\<^verbatim>\<open>nn.Linear\<close>, \<^verbatim>\<open>nn.Conv2d\<close>, \<^verbatim>\<open>nn.LPPool2d\<close>, \<^verbatim>\<open>nn.Tanh\<close>,
  \<^verbatim>\<open>nn.Flatten\<close>, \<^verbatim>\<open>nn.Sequential\<close>) are modelled after their documented behaviour, with
  real numbers in place of floating point: rounding is not modelled.
\<close>

subsection \<open>Errors\<close>

text \<open>
  The library raises \<^verbatim>\<open>RuntimeError\<close> on a shape mismatch or on a negative size, and
  \<^verbatim>\<open>IndexError\<close> when a dimension number is out of range. A raise is the left injection.
\<close>

datatype error = RuntimeError | IndexError

fun ebind :: "error + 'a \<Rightarrow> ('a \<Rightarrow> error + 'b) \<Rightarrow> error + 'b" where
  "ebind (Inl e) f = Inl e"
| "ebind (Inr v) f = f v"

subsection \<open>Tensors\<close>

text \<open>
  A tensor is its sizes and its elements in row-major (contiguous) order.
  \<open>indices s\<close> lists the multi-indices of a shape in that order, \<open>offset s idx\<close> is the
  position of a multi-index, \<open>item t idx\<close> reads an element and \<open>mk s f\<close> builds the
  tensor of shape \<open>s\<close> whose element at \<open>idx\<close> is \<open>f idx\<close>.
\<close>

record tensor =
  shape :: "nat list"
  data :: "real list"

fun indices :: "nat list \<Rightarrow> nat list list" where
  "indices [] = [[]]"
| "indices (n # s) = concat (map (\<lambda>i. map ((#) i) (indices s)) [0..<n])"

fun offset :: "nat list \<Rightarrow> nat list \<Rightarrow> nat" where
  "offset (n # s) (i # idx) = i * prod_list s + offset s idx"
| "offset _ _ = 0"

definition in_bounds :: "nat list \<Rightarrow> nat list \<Rightarrow> bool" where
  "in_bounds s idx = list_all2 (<) idx s"

definition mk :: "nat list \<Rightarrow> (nat list \<Rightarrow> real) \<Rightarrow> tensor" where
  "mk s f = \<lparr>shape = s, data = map f (indices s)\<rparr>"

definition item :: "tensor \<Rightarrow> nat list \<Rightarrow> real" where
  "item t idx = data t ! offset (shape t) idx"

text \<open>Elementwise operations keep the shape.\<close>

definition tmap :: "(real \<Rightarrow> real) \<Rightarrow> tensor \<Rightarrow> tensor" where
  "tmap f t = t\<lparr>data := map f (data t)\<rparr>"

text \<open>\<^verbatim>\<open>torch.zeros(shape)\<close>.\<close>

definition zeros :: "nat list \<Rightarrow> tensor" where
  "zeros s = mk s (\<lambda>idx. 0)"

text \<open>\<^verbatim>\<open>x.unsqueeze(0)\<close> and \<^verbatim>\<open>x.squeeze(0)\<close> on a leading dimension of size 1.\<close>

definition unsqueeze0 :: "tensor \<Rightarrow> tensor" where
  "unsqueeze0 t = t\<lparr>shape := 1 # shape t\<rparr>"

definition squeeze0 :: "tensor \<Rightarrow> tensor" where
  "squeeze0 t = t\<lparr>shape := tl (shape t)\<rparr>"

subsection \<open>Parameter initialisation\<close>

text \<open>
  The library fills every new parameter with random values, and the optimizer later
  overwrites them in place without changing a shape. Both are a parameter of the model:
  an \<open>init\<close> gives, for the name of a parameter (as in the module's state dict, such
  as \<^verbatim>\<open>f7.weight\<close>) and a multi-index, the value stored there. \<open>scope\<close> passes the values of
  a submodule down to its constructor.
\<close>

type_synonym init = "string \<Rightarrow> nat list \<Rightarrow> real"

definition scope :: "string \<Rightarrow> init \<Rightarrow> init" where
  "scope p ini = (\<lambda>name. ini (p @ ''.'' @ name))"

subsection \<open>\<^verbatim>\<open>nn.Linear\<close>\<close>

text \<open>
  \<^verbatim>\<open>nn.Linear(in_features, out_features, bias)\<close> allocates a weight of shape
  \<^verbatim>\<open>(out_features, in_features)\<close> and, with \<^verbatim>\<open>bias\<close>, a bias of shape \<^verbatim>\<open>(out_features)\<close>.
  Allocating a negative size raises; a size of zero is allowed.
  Its forward pass works on the last dimension of the input, whatever the dimensions
  before it: \<^verbatim>\<open>y[..., j] = sum_k x[..., k] * weight[j, k] + bias[j]\<close>, and raises when the
  last dimension is not \<^verbatim>\<open>in_features\<close>.
\<close>

record linear_layer =
  in_features :: nat
  out_features :: nat
  weight :: tensor
  bias :: "tensor option"

definition Linear :: "init \<Rightarrow> int \<Rightarrow> int \<Rightarrow> bool \<Rightarrow> error + linear_layer" where
  "Linear ini in_f out_f has_bias =
     (if in_f < 0 \<or> out_f < 0 then Inl RuntimeError
      else Inr \<lparr>in_features = nat in_f, out_features = nat out_f,
                weight = mk [nat out_f, nat in_f] (ini ''weight''),
                bias = (if has_bias then Some (mk [nat out_f] (ini ''bias'')) else None)\<rparr>)"

definition Linear_forward :: "linear_layer \<Rightarrow> tensor \<Rightarrow> error + tensor" where
  "Linear_forward l x =
     (if shape x = [] \<or> last (shape x) \<noteq> in_features l then Inl RuntimeError
      else Inr (mk (butlast (shape x) @ [out_features l])
        (\<lambda>idx. let j = last idx;
                   s = (\<Sum>k\<leftarrow>[0..<in_features l]. item x (butlast idx @ [k]) * item (weight l) [j, k])
               in case bias l of None \<Rightarrow> s | Some b \<Rightarrow> s + item b [j])))"

subsection \<open>\<^verbatim>\<open>nn.Conv2d\<close>\<close>

text \<open>
  \<^verbatim>\<open>nn.Conv2d(in_channels, out_channels, kernel_size)\<close>: stride 1, no padding, with bias.
  On an input \<^verbatim>\<open>(N, C, H, W)\<close> the output is \<^verbatim>\<open>(N, out_channels, H - k + 1, W - k + 1)\<close>,
  the cross-correlation of the input with the weight plus the bias. A three-dimensional
  input is taken as one unbatched image. A wrong channel count or an input smaller than
  the kernel raises.
\<close>

record conv2d =
  in_channels :: nat
  out_channels :: nat
  kernel_size :: nat
  conv_weight :: tensor
  conv_bias :: tensor

definition Conv2d :: "init \<Rightarrow> nat \<Rightarrow> nat \<Rightarrow> nat \<Rightarrow> conv2d" where
  "Conv2d ini cin cout k =
     \<lparr>in_channels = cin, out_channels = cout, kernel_size = k,
      conv_weight = mk [cout, cin, k, k] (ini ''weight''),
      conv_bias = mk [cout] (ini ''bias'')\<rparr>"

definition conv2d_batched :: "conv2d \<Rightarrow> tensor \<Rightarrow> error + tensor" where
  "conv2d_batched c x =
     (case shape x of
        [n, ci, h, w] \<Rightarrow>
          if ci \<noteq> in_channels c \<or> h < kernel_size c \<or> w < kernel_size c then Inl RuntimeError
          else Inr (mk [n, out_channels c, h - kernel_size c + 1, w - kernel_size c + 1]
            (\<lambda>idx. case idx of
               [b, co, i, j] \<Rightarrow>
                 item (conv_bias c) [co] +
                 (\<Sum>ch\<leftarrow>[0..<in_channels c]. \<Sum>di\<leftarrow>[0..<kernel_size c]. \<Sum>dj\<leftarrow>[0..<kernel_size c].
                    item x [b, ch, i + di, j + dj] * item (conv_weight c) [co, ch, di, dj])
             | _ \<Rightarrow> 0))
      | _ \<Rightarrow> Inl RuntimeError)"

definition Conv2d_forward :: "conv2d \<Rightarrow> tensor \<Rightarrow> error + tensor" where
  "Conv2d_forward c x =
     (if length (shape x) = 3
      then ebind (conv2d_batched c (unsqueeze0 x)) (\<lambda>y. Inr (squeeze0 y))
      else conv2d_batched c x)"

subsection \<open>\<^verbatim>\<open>nn.LPPool2d\<close>\<close>

text \<open>
  \<^verbatim>\<open>F.avg_pool2d(x, kernel_size, stride)\<close> without padding and with \<^verbatim>\<open>ceil_mode\<close> off:
  the output height is \<^verbatim>\<open>floor((H - k) / stride) + 1\<close>, so a last row or column that no
  window covers is dropped. An input smaller than the window, or without channels, raises.
  The library reads the sizes of the last three dimensions first, so an input with fewer
  than three dimensions raises \<^verbatim>\<open>IndexError\<close>; one with more than four is refused with
  \<^verbatim>\<open>RuntimeError\<close>.
\<close>

definition avg_pool2d_batched :: "tensor \<Rightarrow> nat \<Rightarrow> nat \<Rightarrow> error + tensor" where
  "avg_pool2d_batched x k s =
     (case shape x of
        [n, c, h, w] \<Rightarrow>
          if k = 0 \<or> s = 0 \<or> c = 0 \<or> h < k \<or> w < k then Inl RuntimeError
          else Inr (mk [n, c, (h - k) div s + 1, (w - k) div s + 1]
            (\<lambda>idx. case idx of
               [b, ch, i, j] \<Rightarrow>
                 (\<Sum>di\<leftarrow>[0..<k]. \<Sum>dj\<leftarrow>[0..<k]. item x [b, ch, i * s + di, j * s + dj]) / real (k * k)
             | _ \<Rightarrow> 0))
      | _ \<Rightarrow> if length (shape x) < 3 then Inl IndexError else Inl RuntimeError)"

definition avg_pool2d :: "tensor \<Rightarrow> nat \<Rightarrow> nat \<Rightarrow> error + tensor" where
  "avg_pool2d x k s =
     (if length (shape x) = 3
      then ebind (avg_pool2d_batched (unsqueeze0 x) k s) (\<lambda>y. Inr (squeeze0 y))
      else avg_pool2d_batched x k s)"

text \<open>
  \<^verbatim>\<open>F.lp_pool2d(x, norm_type, kernel_size, stride)\<close> is written in the library as
  \<^verbatim>\<open>out = avg_pool2d(x.pow(norm_type), kernel_size, stride)\<close> followed by
  \<^verbatim>\<open>(sign(out) * relu(abs(out))).mul(kw * kh).pow(1.0 / norm_type)\<close>.
  The last power, \<open>pow_root\<close>, has the exponent 1.0 for the \<^verbatim>\<open>norm_type\<close> 1 that the notebook
  passes, and a power with exponent 1.0 returns its argument, negative or not. For a
  larger \<^verbatim>\<open>norm_type\<close> it is the root of that order.
\<close>

definition pow_root :: "nat \<Rightarrow> real \<Rightarrow> real" where
  "pow_root p v = (if p = 1 then v else root p v)"

definition relu :: "real \<Rightarrow> real" where
  "relu v = max 0 v"

definition lp_pool2d :: "tensor \<Rightarrow> nat \<Rightarrow> nat \<Rightarrow> nat \<Rightarrow> error + tensor" where
  "lp_pool2d x p k s =
     ebind (avg_pool2d (tmap (\<lambda>v. v ^ p) x) k s)
       (\<lambda>out. Inr (tmap (pow_root p) (tmap (\<lambda>v. v * real (k * k)) (tmap (\<lambda>v. sgn v * relu \<bar>v\<bar>) out))))"

record lppool2d =
  norm_type :: nat
  pool_kernel_size :: nat
  stride :: nat

definition LPPool2d :: "nat \<Rightarrow> nat \<Rightarrow> nat \<Rightarrow> lppool2d" where
  "LPPool2d p k s = \<lparr>norm_type = p, pool_kernel_size = k, stride = s\<rparr>"

definition LPPool2d_forward :: "lppool2d \<Rightarrow> tensor \<Rightarrow> error + tensor" where
  "LPPool2d_forward m x = lp_pool2d x (norm_type m) (pool_kernel_size m) (stride m)"

subsection \<open>\<^verbatim>\<open>nn.Tanh\<close>, scalar multiplication, \<^verbatim>\<open>nn.Flatten\<close>, \<^verbatim>\<open>nn.Sequential\<close>\<close>

text \<open>
  \<open>tanh\<close> is the function on the reals. The program computes it in floating point, where
  it returns exactly 1 or -1 for arguments of large magnitude; nothing below uses that
  the real \<open>tanh\<close> stays strictly inside \<open>(-1, 1)\<close> or is strictly increasing.
\<close>

definition Tanh_forward :: "tensor \<Rightarrow> tensor" where
  "Tanh_forward x = tmap tanh x"

definition mul_scalar :: "real \<Rightarrow> tensor \<Rightarrow> tensor" where
  "mul_scalar a x = tmap (\<lambda>v. a * v) x"

text \<open>
  \<^verbatim>\<open>nn.Flatten()\<close> merges every dimension from the second on; the elements stay in
  order. An input with fewer than two dimensions has no dimension 1 to start from.
\<close>

definition Flatten_forward :: "tensor \<Rightarrow> error + tensor" where
  "Flatten_forward x =
     (case shape x of
        n # d # rest \<Rightarrow> Inr (x\<lparr>shape := [n, prod_list (d # rest)]\<rparr>)
      | _ \<Rightarrow> Inl IndexError)"

text \<open>
  \<^verbatim>\<open>nn.Sequential.forward\<close> is \<^verbatim>\<open>for module in self: input = module(input)\<close>; a raise in
  a module ends the pass. \<open>app\<close> is the call of one module.
\<close>

fun Sequential_forward :: "('m \<Rightarrow> tensor \<Rightarrow> error + tensor) \<Rightarrow> 'm list \<Rightarrow> tensor \<Rightarrow> error + tensor" where
  "Sequential_forward app [] x = Inr x"
| "Sequential_forward app (m # ms) x =
     (case app m x of Inl e \<Rightarrow> Inl e | Inr y \<Rightarrow> Sequential_forward app ms y)"

subsection \<open>\<^verbatim>\<open>class LenetPool\<close>\<close>

text \<open>
  \<^verbatim>\<open>
  def __init__(self, kernel_size, sum_stride, in_features, out_features):
      self.sum_pool = nn.LPPool2d(1, kernel_size, stride=sum_stride)
      self.linear = nn.Linear(in_features, out_features)
      self.layers = nn.Sequential(self.sum_pool, self.linear)
  def forward(self, x):
      return self.layers(x)
  \<close>
\<close>

datatype pool_module = SumPool lppool2d | PoolLinear linear_layer

record lenet_pool =
  sum_pool :: lppool2d
  linear_m :: linear_layer
  pool_layers :: "pool_module list"

definition LenetPool :: "init \<Rightarrow> nat \<Rightarrow> nat \<Rightarrow> int \<Rightarrow> int \<Rightarrow> error + lenet_pool" where
  "LenetPool ini ks sum_stride in_f out_f =
     (let sp = LPPool2d 1 ks sum_stride in
      ebind (Linear (scope ''linear'' ini) in_f out_f True)
        (\<lambda>l. Inr \<lparr>sum_pool = sp, linear_m = l, pool_layers = [SumPool sp, PoolLinear l]\<rparr>))"

fun pool_module_forward :: "pool_module \<Rightarrow> tensor \<Rightarrow> error + tensor" where
  "pool_module_forward (SumPool m) x = LPPool2d_forward m x"
| "pool_module_forward (PoolLinear l) x = Linear_forward l x"

definition LenetPool_forward :: "lenet_pool \<Rightarrow> tensor \<Rightarrow> error + tensor" where
  "LenetPool_forward p x = Sequential_forward pool_module_forward (pool_layers p) x"

subsection \<open>\<^verbatim>\<open>class LenetSigmoid\<close>\<close>

text \<open>
  \<^verbatim>\<open>
  def __init__(self, in_features, out_features):
      self.S = nn.Linear(in_features, out_features, bias=False)
      self.act = nn.Tanh()
      self.A = 1.7159
  def forward(self, x):
      x = self.S(x)
      x = self.act(x)
      x = self.A*x
      return x
  \<close>
  \<^verbatim>\<open>nn.Tanh\<close> has no state, so the record has no field for \<^verbatim>\<open>act\<close>.
\<close>

record lenet_sigmoid =
  S :: linear_layer
  A :: real

definition LenetSigmoid :: "init \<Rightarrow> int \<Rightarrow> int \<Rightarrow> error + lenet_sigmoid" where
  "LenetSigmoid ini in_f out_f =
     ebind (Linear (scope ''S'' ini) in_f out_f False) (\<lambda>l. Inr \<lparr>S = l, A = 1.7159\<rparr>)"

definition LenetSigmoid_forward :: "lenet_sigmoid \<Rightarrow> tensor \<Rightarrow> error + tensor" where
  "LenetSigmoid_forward m x =
     ebind (Linear_forward (S m) x)
       (\<lambda>x1. let x2 = Tanh_forward x1; x3 = mul_scalar (A m) x2 in Inr x3)"

subsection \<open>\<^verbatim>\<open>class Lenet\<close>\<close>

datatype module =
    Conv2d_mod conv2d
  | LenetSigmoid_mod lenet_sigmoid
  | LenetPool_mod lenet_pool
  | Flatten_mod
  | Linear_mod linear_layer

fun module_forward :: "module \<Rightarrow> tensor \<Rightarrow> error + tensor" where
  "module_forward (Conv2d_mod c) x = Conv2d_forward c x"
| "module_forward (LenetSigmoid_mod a) x = LenetSigmoid_forward a x"
| "module_forward (LenetPool_mod p) x = LenetPool_forward p x"
| "module_forward Flatten_mod x = Flatten_forward x"
| "module_forward (Linear_mod l) x = Linear_forward l x"

text \<open>\<^verbatim>\<open>layer.__class__.__name__\<close>.\<close>

fun class_name :: "module \<Rightarrow> string" where
  "class_name (Conv2d_mod c) = ''Conv2d''"
| "class_name (LenetSigmoid_mod a) = ''LenetSigmoid''"
| "class_name (LenetPool_mod p) = ''LenetPool''"
| "class_name Flatten_mod = ''Flatten''"
| "class_name (Linear_mod l) = ''Linear''"

record lenet =
  c1 :: conv2d
  a1 :: lenet_sigmoid
  s2 :: lenet_pool
  a2 :: lenet_sigmoid
  c3 :: conv2d
  a3 :: lenet_sigmoid
  s4 :: lenet_pool
  a4 :: lenet_sigmoid
  f5 :: linear_layer
  a5 :: lenet_sigmoid
  f6 :: linear_layer
  a6 :: lenet_sigmoid
  f7 :: linear_layer
  layers :: "module list"

text \<open>
  \<^verbatim>\<open>Lenet.__init__(self, num_classes)\<close>: the thirteen modules with their constant sizes, in
  the order of the source, then the \<^verbatim>\<open>nn.Sequential\<close> that holds them with \<^verbatim>\<open>nn.Flatten()\<close>
  between \<^verbatim>\<open>a4\<close> and \<^verbatim>\<open>f5\<close>. Only \<^verbatim>\<open>f7\<close> depends on \<^verbatim>\<open>num_classes\<close>; the source checks
  nothing about it.
\<close>

definition Lenet :: "init \<Rightarrow> int \<Rightarrow> error + lenet" where
  "Lenet ini num_classes =
     (let c1v = Conv2d (scope ''c1'' ini) 1 6 5 in
      ebind (LenetSigmoid (scope ''a1'' ini) 28 28) (\<lambda>a1v.
      ebind (LenetPool (scope ''s2'' ini) 2 2 14 14) (\<lambda>s2v.
      ebind (LenetSigmoid (scope ''a2'' ini) 14 14) (\<lambda>a2v.
      let c3v = Conv2d (scope ''c3'' ini) 6 16 5 in
      ebind (LenetSigmoid (scope ''a3'' ini) 10 10) (\<lambda>a3v.
      ebind (LenetPool (scope ''s4'' ini) 2 2 5 5) (\<lambda>s4v.
      ebind (LenetSigmoid (scope ''a4'' ini) 5 5) (\<lambda>a4v.
      ebind (Linear (scope ''f5'' ini) 400 120 True) (\<lambda>f5v.
      ebind (LenetSigmoid (scope ''a5'' ini) 120 120) (\<lambda>a5v.
      ebind (Linear (scope ''f6'' ini) 120 84 True) (\<lambda>f6v.
      ebind (LenetSigmoid (scope ''a6'' ini) 84 84) (\<lambda>a6v.
      ebind (Linear (scope ''f7'' ini) 84 num_classes True) (\<lambda>f7v.
      Inr \<lparr>c1 = c1v, a1 = a1v, s2 = s2v, a2 = a2v, c3 = c3v, a3 = a3v, s4 = s4v, a4 = a4v,
           f5 = f5v, a5 = a5v, f6 = f6v, a6 = a6v, f7 = f7v,
           layers = [Conv2d_mod c1v, LenetSigmoid_mod a1v,
                     LenetPool_mod s2v, LenetSigmoid_mod a2v,
                     Conv2d_mod c3v, LenetSigmoid_mod a3v,
                     LenetPool_mod s4v, LenetSigmoid_mod a4v,
                     Flatten_mod,
                     Linear_mod f5v, LenetSigmoid_mod a5v,
                     Linear_mod f6v, LenetSigmoid_mod a6v,
                     Linear_mod f7v]\<rparr>))))))))))))"

text \<open>\<^verbatim>\<open>Lenet.forward(self, x)\<close> is \<^verbatim>\<open>return self.layers(x)\<close>.\<close>

definition Lenet_forward :: "lenet \<Rightarrow> tensor \<Rightarrow> error + tensor" where
  "Lenet_forward m x = Sequential_forward module_forward (layers m) x"

subsection \<open>\<^verbatim>\<open>run_tests\<close>\<close>

text \<open>
  \<^verbatim>\<open>
  def run_tests(shape, num_classes):
      x = torch.randn(shape)
      model = Lenet(num_classes)
      for layer in model.layers:
          x = layer(x)
          print(layer.__class__.__name__, ':', x.shape)
      return x
  \<close>
  The loop is \<open>run_layers\<close>: it carries the lines printed so far. A raise in a layer ends
  the loop with the lines printed before it. The random sample is the parameter \<open>rnd\<close>.
\<close>

fun run_layers :: "module list \<Rightarrow> tensor \<Rightarrow> (string \<times> nat list) list
    \<Rightarrow> (string \<times> nat list) list \<times> (error + tensor)" where
  "run_layers [] x out = (out, Inr x)"
| "run_layers (layer # rest) x out =
     (case module_forward layer x of
        Inl e \<Rightarrow> (out, Inl e)
      | Inr y \<Rightarrow> run_layers rest y (out @ [(class_name layer, shape y)]))"

definition run_tests :: "(nat list \<Rightarrow> real) \<Rightarrow> init \<Rightarrow> nat list \<Rightarrow> int
    \<Rightarrow> (string \<times> nat list) list \<times> (error + tensor)" where
  "run_tests rnd ini shp num_classes =
     (let x = mk shp rnd in
      case Lenet ini num_classes of
        Inl e \<Rightarrow> ([], Inl e)
      | Inr model \<Rightarrow> run_layers (layers model) x [])"

subsection \<open>Calls with their effects\<close>

text \<open>
  A call \<^verbatim>\<open>module(x)\<close> can do more than return a value: a \<^verbatim>\<open>forward\<close> method can assign to
  attributes of its module, and library code can draw from the default random generator,
  as \<^verbatim>\<open>torch.randn\<close> in \<^verbatim>\<open>run_tests\<close> does. The calls below make both explicit. Each takes
  the module and the state of the generator, here the number of values drawn so far, and
  returns the result together with the module and the generator as the call leaves them;
  after a raise they are as the modules called before it left them.
\<close>

type_synonym generator = nat

text \<open>
  \<^verbatim>\<open>torch.randn(shape)\<close> takes the next values of the generator's sequence \<open>noise\<close> and
  moves the generator past them.
\<close>

definition randn :: "(nat \<Rightarrow> real) \<Rightarrow> nat list \<Rightarrow> generator \<Rightarrow> tensor \<times> generator" where
  "randn noise shp g = (mk shp (\<lambda>idx. noise (g + offset shp idx)), g + prod_list shp)"

text \<open>
  The forward passes of \<^verbatim>\<open>nn.Linear\<close>, \<^verbatim>\<open>nn.Conv2d\<close>, \<^verbatim>\<open>nn.LPPool2d\<close>, \<^verbatim>\<open>nn.Tanh\<close> and
  \<^verbatim>\<open>nn.Flatten\<close> read their module and their input; they assign nothing and draw nothing.
\<close>

definition Linear_call :: "linear_layer \<Rightarrow> tensor \<Rightarrow> generator
    \<Rightarrow> (error + tensor) \<times> linear_layer \<times> generator" where
  "Linear_call l x g = (Linear_forward l x, l, g)"

definition Conv2d_call :: "conv2d \<Rightarrow> tensor \<Rightarrow> generator
    \<Rightarrow> (error + tensor) \<times> conv2d \<times> generator" where
  "Conv2d_call c x g = (Conv2d_forward c x, c, g)"

definition LPPool2d_call :: "lppool2d \<Rightarrow> tensor \<Rightarrow> generator
    \<Rightarrow> (error + tensor) \<times> lppool2d \<times> generator" where
  "LPPool2d_call m x g = (LPPool2d_forward m x, m, g)"

definition Tanh_call :: "tensor \<Rightarrow> generator \<Rightarrow> tensor \<times> generator" where
  "Tanh_call x g = (Tanh_forward x, g)"

definition Flatten_call :: "tensor \<Rightarrow> generator \<Rightarrow> (error + tensor) \<times> generator" where
  "Flatten_call x g = (Flatten_forward x, g)"

text \<open>
  \<^verbatim>\<open>nn.Sequential.forward\<close> calls its modules in order, each on the state the one before
  left.
\<close>

fun Sequential_call :: "('m \<Rightarrow> tensor \<Rightarrow> generator \<Rightarrow> (error + tensor) \<times> 'm \<times> generator)
    \<Rightarrow> 'm list \<Rightarrow> tensor \<Rightarrow> generator \<Rightarrow> (error + tensor) \<times> 'm list \<times> generator" where
  "Sequential_call app [] x g = (Inr x, [], g)"
| "Sequential_call app (m # ms) x g =
     (case app m x g of
        (Inl e, m', g') \<Rightarrow> (Inl e, m' # ms, g')
      | (Inr y, m', g') \<Rightarrow>
          (case Sequential_call app ms y g' of (r, ms', g'') \<Rightarrow> (r, m' # ms', g'')))"

text \<open>
  The \<^verbatim>\<open>forward\<close> methods of the notebook, statement by statement. The attributes
  \<^verbatim>\<open>sum_pool\<close>, \<^verbatim>\<open>linear\<close> and \<^verbatim>\<open>c1\<close> to \<^verbatim>\<open>f7\<close> name the same objects as the entries of
  \<^verbatim>\<open>layers\<close>; the records hold them as copies, and the passes go through \<^verbatim>\<open>layers\<close>.
\<close>

fun pool_module_call :: "pool_module \<Rightarrow> tensor \<Rightarrow> generator
    \<Rightarrow> (error + tensor) \<times> pool_module \<times> generator" where
  "pool_module_call (SumPool m) x g =
     (case LPPool2d_call m x g of (r, m', g') \<Rightarrow> (r, SumPool m', g'))"
| "pool_module_call (PoolLinear l) x g =
     (case Linear_call l x g of (r, l', g') \<Rightarrow> (r, PoolLinear l', g'))"

definition LenetPool_call :: "lenet_pool \<Rightarrow> tensor \<Rightarrow> generator
    \<Rightarrow> (error + tensor) \<times> lenet_pool \<times> generator" where
  "LenetPool_call p x g =
     (case Sequential_call pool_module_call (pool_layers p) x g of
        (r, ls', g') \<Rightarrow> (r, p\<lparr>pool_layers := ls'\<rparr>, g'))"

definition LenetSigmoid_call :: "lenet_sigmoid \<Rightarrow> tensor \<Rightarrow> generator
    \<Rightarrow> (error + tensor) \<times> lenet_sigmoid \<times> generator" where
  "LenetSigmoid_call m x g =
     (case Linear_call (S m) x g of
        (Inl e, S', g1) \<Rightarrow> (Inl e, m\<lparr>S := S'\<rparr>, g1)
      | (Inr x1, S', g1) \<Rightarrow>
          (case Tanh_call x1 g1 of
             (x2, g2) \<Rightarrow>
               let m1 = m\<lparr>S := S'\<rparr>; x3 = mul_scalar (A m1) x2 in (Inr x3, m1, g2)))"

fun module_call :: "module \<Rightarrow> tensor \<Rightarrow> generator \<Rightarrow> (error + tensor) \<times> module \<times> generator" where
  "module_call (Conv2d_mod c) x g =
     (case Conv2d_call c x g of (r, c', g') \<Rightarrow> (r, Conv2d_mod c', g'))"
| "module_call (LenetSigmoid_mod a) x g =
     (case LenetSigmoid_call a x g of (r, a', g') \<Rightarrow> (r, LenetSigmoid_mod a', g'))"
| "module_call (LenetPool_mod p) x g =
     (case LenetPool_call p x g of (r, p', g') \<Rightarrow> (r, LenetPool_mod p', g'))"
| "module_call Flatten_mod x g =
     (case Flatten_call x g of (r, g') \<Rightarrow> (r, Flatten_mod, g'))"
| "module_call (Linear_mod l) x g =
     (case Linear_call l x g of (r, l', g') \<Rightarrow> (r, Linear_mod l', g'))"

definition Lenet_call :: "lenet \<Rightarrow> tensor \<Rightarrow> generator \<Rightarrow> (error + tensor) \<times> lenet \<times> generator" where
  "Lenet_call net x g =
     (case Sequential_call module_call (layers net) x g of
        (r, ls', g') \<Rightarrow> (r, net\<lparr>layers := ls'\<rparr>, g'))"

section \<open>Properties\<close>

subsection \<open>Reading the tensor that \<open>mk\<close> builds\<close>

lemma shape_mk [simp]: "shape (mk s f) = s"
  by (simp add: mk_def)

lemma shape_tmap [simp]: "shape (tmap f t) = shape t"
  by (simp add: tmap_def)

lemma length_data_tmap [simp]: "length (data (tmap f t)) = length (data t)"
  by (simp add: tmap_def)

lemma length_concat_chunks:
  "(\<And>i. i < n \<Longrightarrow> length (g i) = m) \<Longrightarrow> length (concat (map g [0..<n])) = n * m"
  by (induction n) simp_all

lemma nth_concat_chunks:
  "(\<And>i. i < n \<Longrightarrow> length (g i) = m) \<Longrightarrow> i < n \<Longrightarrow> r < m
   \<Longrightarrow> concat (map g [0..<n]) ! (i * m + r) = g i ! r"
proof (induction n)
  case 0
  then show ?case by simp
next
  case (Suc n)
  have len: "length (concat (map g [0..<n])) = n * m"
    using Suc.prems(1) by (simp add: length_concat_chunks)
  show ?case
  proof (cases "i < n")
    case True
    have "i * m + r < Suc i * m" using Suc.prems(3) by simp
    also have "\<dots> \<le> n * m" using True by (intro mult_le_mono1) simp
    finally have "i * m + r < n * m" .
    with True Suc show ?thesis by (simp add: nth_append len)
  next
    case False
    with Suc.prems(2) have "i = n" by simp
    then show ?thesis using Suc.prems(3) by (simp add: nth_append len)
  qed
qed

lemma length_indices: "length (indices s) = prod_list s"
  by (induction s) (simp_all add: length_concat_chunks)

lemma length_data_mk [simp]: "length (data (mk s f)) = prod_list s"
  by (simp add: mk_def length_indices)

lemma offset_indices:
  "in_bounds s idx \<Longrightarrow> offset s idx < prod_list s \<and> indices s ! offset s idx = idx"
  unfolding in_bounds_def
proof (induction s arbitrary: idx)
  case Nil
  then show ?case by simp
next
  case (Cons n s)
  then obtain i r where idx: "idx = i # r" and i: "i < n" and r: "list_all2 (<) r s"
    by (auto simp: list_all2_Cons2)
  from Cons.IH [OF r] have o: "offset s r < prod_list s" and nth: "indices s ! offset s r = r"
    by simp_all
  have "i * prod_list s + offset s r < n * prod_list s"
  proof -
    have "i * prod_list s + offset s r < Suc i * prod_list s" using o by simp
    also have "\<dots> \<le> n * prod_list s" using i by (intro mult_le_mono1) simp
    finally show ?thesis .
  qed
  moreover have "concat (map (\<lambda>i. map ((#) i) (indices s)) [0..<n]) ! (i * prod_list s + offset s r)
      = map ((#) i) (indices s) ! offset s r"
    using i o by (intro nth_concat_chunks) (simp_all add: length_indices)
  ultimately show ?case using o nth by (simp add: idx length_indices)
qed

lemma item_mk: "in_bounds s idx \<Longrightarrow> item (mk s f) idx = f idx"
  using offset_indices [of s idx] by (simp add: item_def mk_def length_indices)

lemma item_tmap:
  "in_bounds (shape t) idx \<Longrightarrow> length (data t) = prod_list (shape t)
   \<Longrightarrow> item (tmap f t) idx = f (item t idx)"
  using offset_indices [of "shape t" idx] by (simp add: item_def tmap_def)

lemma in_bounds4 [simp]:
  "in_bounds [a, b, c, d] [i, j, k, l] \<longleftrightarrow> i < a \<and> j < b \<and> k < c \<and> l < d"
  by (simp add: in_bounds_def)

lemma in_bounds2 [simp]: "in_bounds [a, b] [i, j] \<longleftrightarrow> i < a \<and> j < b"
  by (simp add: in_bounds_def)

lemma in_bounds1 [simp]: "in_bounds [a] [i] \<longleftrightarrow> i < a"
  by (simp add: in_bounds_def)

lemma upt_2: "[0..<2] = [0, Suc 0]"
  by (simp add: upt_rec)

subsection \<open>The summing pool of \<^verbatim>\<open>LenetPool\<close>\<close>

lemma sgn_relu_abs: "sgn v * relu \<bar>v\<bar> = v"
  by (simp add: relu_def mult_sgn_abs)

lemma LenetPool_Inr:
  "LenetPool ini ks st n_in n_out = Inr p \<Longrightarrow>
     0 \<le> n_in \<and> 0 \<le> n_out \<and> sum_pool p = LPPool2d 1 ks st
     \<and> linear_m p = \<lparr>in_features = nat n_in, out_features = nat n_out,
          weight = mk [nat n_out, nat n_in] (ini ''linear.weight''),
          bias = Some (mk [nat n_out] (ini ''linear.bias''))\<rparr>
     \<and> pool_layers p = [SumPool (sum_pool p), PoolLinear (linear_m p)]"
  by (auto simp: LenetPool_def Linear_def scope_def Let_def split: if_splits)

lemma sum_pool_forward:
  assumes x: "shape x = [b, c, h, w]" and c: "1 \<le> c" and h: "2 \<le> h" and w: "2 \<le> w"
  shows "LPPool2d_forward (LPPool2d 1 2 2) x =
     Inr (tmap (pow_root 1) (tmap (\<lambda>v. v * real (2 * 2)) (tmap (\<lambda>v. sgn v * relu \<bar>v\<bar>)
       (mk [b, c, (h - 2) div 2 + 1, (w - 2) div 2 + 1]
          (\<lambda>idx. case idx of
               [n, ch, i, j] \<Rightarrow>
                 (\<Sum>di\<leftarrow>[0..<2]. \<Sum>dj\<leftarrow>[0..<2]. item (tmap (\<lambda>v. v ^ 1) x) [n, ch, i * 2 + di, j * 2 + dj]) / real (2 * 2)
             | _ \<Rightarrow> 0)))))"
  using assms
  by (simp add: LPPool2d_forward_def LPPool2d_def lp_pool2d_def avg_pool2d_def avg_pool2d_batched_def)

lemma sum_pool_item:
  assumes x: "shape x = [b, c, h, w]" and wf: "length (data x) = prod_list (shape x)"
    and c: "1 \<le> c" and h: "2 \<le> h" and w: "2 \<le> w"
    and y: "LPPool2d_forward (LPPool2d 1 2 2) x = Inr y"
    and n: "n < b" and ch: "ch < c" and i: "i < h div 2" and j: "j < w div 2"
  shows "item y [n, ch, i, j] =
     item x [n, ch, 2 * i, 2 * j] + item x [n, ch, 2 * i, 2 * j + 1]
     + item x [n, ch, 2 * i + 1, 2 * j] + item x [n, ch, 2 * i + 1, 2 * j + 1]"
proof -
  define g where "g = (\<lambda>idx. case idx of
               [n, ch, i, j] \<Rightarrow>
                 (\<Sum>di\<leftarrow>[0..<2]. \<Sum>dj\<leftarrow>[0..<2]. item (tmap (\<lambda>v. v ^ 1) x) [n, ch, i * 2 + di, j * 2 + dj]) / real (2 * 2)
             | _ \<Rightarrow> 0)"
  define t where "t = mk [b, c, (h - 2) div 2 + 1, (w - 2) div 2 + 1] g"
  have y_eq: "y = tmap (pow_root 1) (tmap (\<lambda>v. v * real (2 * 2)) (tmap (\<lambda>v. sgn v * relu \<bar>v\<bar>) t))"
    using y unfolding sum_pool_forward [OF x c h w] t_def g_def by simp
  have hd: "(h - 2) div 2 + 1 = h div 2" and wd: "(w - 2) div 2 + 1 = w div 2"
    using h w by presburger+
  have i2: "2 * i + 1 < h" and j2: "2 * j + 1 < w" using i j by presburger+
  have ib: "in_bounds (shape t) [n, ch, i, j]"
    using n ch i j hd wd by (simp add: t_def)
  have wft: "length (data t) = prod_list (shape t)"
    by (simp add: t_def)
  have rd: "\<And>k l f. k < h \<Longrightarrow> l < w \<Longrightarrow> item (tmap f x) [n, ch, k, l] = f (item x [n, ch, k, l])"
    using n ch wf by (subst item_tmap) (simp_all add: x)
  have "item y [n, ch, i, j] = item t [n, ch, i, j] * 4"
    by (simp add: y_eq item_tmap ib wft sgn_relu_abs pow_root_def)
  also have "item t [n, ch, i, j] = g [n, ch, i, j]"
    using ib unfolding t_def by (simp add: item_mk)
  also have "g [n, ch, i, j] * 4 = item x [n, ch, 2 * i, 2 * j] + item x [n, ch, 2 * i, 2 * j + 1]
     + item x [n, ch, 2 * i + 1, 2 * j] + item x [n, ch, 2 * i + 1, 2 * j + 1]"
    using i2 j2 by (simp add: g_def upt_2 rd mult_2 mult_2_right)
  finally show ?thesis .
qed

text \<open>
  C4. The pooling stage that \<^verbatim>\<open>LenetPool(2, 2, _, _)\<close> runs before its linear remap gives,
  for every window position \<open>(i, j)\<close> of every channel of every batch element, the sum of
  the four input values of the window with corner \<open>(2 i, 2 j)\<close>: not their mean and not
  their maximum. The remap is then applied to this tensor of sums.
\<close>

theorem LenetPool_sum_pool_is_sum:
  assumes "LenetPool ini 2 2 n_in n_out = Inr p"
    and "shape x = [b, c, h, w]" and "length (data x) = prod_list (shape x)"
    and "1 \<le> c" and "2 \<le> h" and "2 \<le> w"
    and "n < b" and "ch < c" and "i < h div 2" and "j < w div 2"
  shows "\<exists>y. LPPool2d_forward (sum_pool p) x = Inr y
      \<and> LenetPool_forward p x = Linear_forward (linear_m p) y
      \<and> shape y = [b, c, h div 2, w div 2]
      \<and> item y [n, ch, i, j] =
          item x [n, ch, 2 * i, 2 * j] + item x [n, ch, 2 * i, 2 * j + 1]
          + item x [n, ch, 2 * i + 1, 2 * j] + item x [n, ch, 2 * i + 1, 2 * j + 1]"
proof -
  note p = LenetPool_Inr [OF assms(1)]
  have hd: "(h - 2) div 2 + 1 = h div 2" and wd: "(w - 2) div 2 + 1 = w div 2"
    using assms(5,6) by presburger+
  obtain y where y: "LPPool2d_forward (LPPool2d 1 2 2) x = Inr y"
    and sy: "shape y = [b, c, h div 2, w div 2]"
    using sum_pool_forward [OF assms(2,4,5,6)] hd wd by simp
  have "LenetPool_forward p x = Linear_forward (linear_m p) y"
    using p y by (simp add: LenetPool_forward_def split: sum.splits)
  moreover note sum_pool_item [OF assms(2-6) y assms(7-10)]
  ultimately show ?thesis using p y sy by simp
qed

text \<open>The window holding 1, 2, 3, 4 pools to 10, which is neither 2.5 nor 4.\<close>

theorem LenetPool_sum_pool_is_sum_witness:
  "\<exists>p y. LenetPool (\<lambda>name idx. 0) 2 2 1 1 = Inr p
     \<and> LPPool2d_forward (sum_pool p) \<lparr>shape = [1, 1, 2, 2], data = [1, 2, 3, 4]\<rparr> = Inr y
     \<and> shape y = [1, 1, 1, 1]
     \<and> item y [0, 0, 0, 0] = 10 \<and> item y [0, 0, 0, 0] \<noteq> 5 / 2 \<and> item y [0, 0, 0, 0] \<noteq> 4"
proof -
  let ?x = "\<lparr>shape = [1, 1, 2, 2], data = [1, 2, 3, 4]\<rparr>"
  obtain p where p: "LenetPool (\<lambda>name idx. 0) 2 2 1 1 = Inr p"
    by (simp add: LenetPool_def Linear_def Let_def)
  from LenetPool_sum_pool_is_sum [OF p, of ?x 1 1 2 2 0 0 0 0]
  obtain y where "LPPool2d_forward (sum_pool p) ?x = Inr y" and "shape y = [1, 1, 1, 1]"
    and "item y [0, 0, 0, 0] = 10"
    by (auto simp: item_def)
  with p show ?thesis by auto
qed

subsection \<open>The activation \<^verbatim>\<open>LenetSigmoid\<close>\<close>

lemma in_bounds_snoc:
  "in_bounds (s @ [n]) (idx @ [j]) \<longleftrightarrow> in_bounds s idx \<and> j < n"
proof (cases "length idx = length s")
  case True
  then show ?thesis by (simp add: in_bounds_def list_all2_append)
next
  case False
  then show ?thesis by (auto simp: in_bounds_def dest: list_all2_lengthD)
qed

lemma sum_list_upt_cong:
  "(\<And>k. k < n \<Longrightarrow> f k = g k) \<Longrightarrow> (\<Sum>k\<leftarrow>[0..<n]. f k) = (\<Sum>k\<leftarrow>[0..<n]. (g k :: real))"
  by (rule arg_cong [where f = sum_list]) simp

lemma LenetSigmoid_Inr:
  "LenetSigmoid ini n_in n_out = Inr m \<Longrightarrow>
     0 \<le> n_in \<and> 0 \<le> n_out \<and> A m = 1.7159
     \<and> S m = \<lparr>in_features = nat n_in, out_features = nat n_out,
          weight = mk [nat n_out, nat n_in] (ini ''S.weight''), bias = None\<rparr>"
  by (auto simp: LenetSigmoid_def Linear_def scope_def split: if_splits)

lemma Linear_forward_Inr:
  "shape x = pre @ [in_features l] \<Longrightarrow>
   Linear_forward l x = Inr (mk (pre @ [out_features l])
        (\<lambda>idx. let j = last idx;
                   s = (\<Sum>k\<leftarrow>[0..<in_features l]. item x (butlast idx @ [k]) * item (weight l) [j, k])
               in case bias l of None \<Rightarrow> s | Some b \<Rightarrow> s + item b [j]))"
  by (simp add: Linear_forward_def)

lemma LenetSigmoid_forward_data:
  "LenetSigmoid_forward m x = ebind (Linear_forward (S m) x) (\<lambda>z. Inr (tmap (\<lambda>v. A m * tanh v) z))"
  by (cases "Linear_forward (S m) x")
     (simp_all add: LenetSigmoid_forward_def Tanh_forward_def mul_scalar_def tmap_def)

text \<open>
  C3. A unit built by \<^verbatim>\<open>LenetSigmoid(n, n)\<close> holds a square weight \<open>S\<close> of shape \<open>(n, n)\<close>,
  no bias, and the constant \<open>A = 1.7159\<close> whatever the parameter values are. Its forward
  pass keeps the shape of the input, and its output at a position \<open>(\<dots>, j)\<close> is
  \<open>1.7159 * tanh (\<Sum>k. x[\<dots>, k] * S[j, k])\<close>: nothing is added before the \<open>tanh\<close> and
  nothing after the scaling.
\<close>
theorem LenetSigmoid_forward_formula:
  assumes "LenetSigmoid ini n n = Inr m"
    and "shape x = pre @ [nat n]"
    and "in_bounds (pre @ [nat n]) (idx @ [j])"
  shows "shape (weight (S m)) = [nat n, nat n] \<and> bias (S m) = None \<and> A m = 1.7159
     \<and> (\<exists>y. LenetSigmoid_forward m x = Inr y \<and> shape y = shape x
          \<and> item y (idx @ [j]) =
              1.7159 * tanh (\<Sum>k\<leftarrow>[0..<nat n]. item x (idx @ [k]) * ini ''S.weight'' [j, k]))"
proof -
  note m = LenetSigmoid_Inr [OF assms(1)]
  define g where "g = (\<lambda>idx. let j = last idx;
                   s = (\<Sum>k\<leftarrow>[0..<in_features (S m)]. item x (butlast idx @ [k]) * item (weight (S m)) [j, k])
               in case bias (S m) of None \<Rightarrow> s | Some b \<Rightarrow> s + item b [j])"
  define z where "z = mk (pre @ [out_features (S m)]) g"
  have lin: "Linear_forward (S m) x = Inr z"
    unfolding z_def g_def using assms(2) m by (intro Linear_forward_Inr) simp
  have sz: "shape z = pre @ [nat n]" using m by (simp add: z_def)
  have j: "j < nat n" using assms(3) by (simp add: in_bounds_snoc)
  have w: "\<And>k. k < nat n \<Longrightarrow> item (weight (S m)) [j, k] = ini ''S.weight'' [j, k]"
    using m j by (simp add: item_mk)
  have "item z (idx @ [j]) = g (idx @ [j])"
    unfolding z_def using assms(3) m by (intro item_mk) simp
  also have "\<dots> = (\<Sum>k\<leftarrow>[0..<nat n]. item x (idx @ [k]) * ini ''S.weight'' [j, k])"
    using m by (simp add: g_def) (rule sum_list_upt_cong, simp add: item_mk j)
  finally have iz: "item z (idx @ [j]) = (\<Sum>k\<leftarrow>[0..<nat n]. item x (idx @ [k]) * ini ''S.weight'' [j, k])" .
  have it: "\<And>a. item (tmap (\<lambda>v. a * tanh v) z) (idx @ [j]) = a * tanh (item z (idx @ [j]))"
    using assms(3) m by (intro item_tmap) (simp_all add: sz, simp add: z_def)
  have fw: "LenetSigmoid_forward m x = Inr (tmap (\<lambda>v. A m * tanh v) z)"
    by (simp add: LenetSigmoid_forward_data lin)
  have c1: "shape (weight (S m)) = [nat n, nat n]" and c2: "bias (S m) = None"
    using m by simp_all
  have c3: "A m = 1.7159" using m by blast
  have c4: "shape (tmap (\<lambda>v. A m * tanh v) z) = shape x"
    by (simp add: sz assms(2))
  have c5: "item (tmap (\<lambda>v. A m * tanh v) z) (idx @ [j]) =
      1.7159 * tanh (\<Sum>k\<leftarrow>[0..<nat n]. item x (idx @ [k]) * ini ''S.weight'' [j, k])"
    by (simp only: it iz c3)
  show ?thesis using c1 c2 c3 fw c4 c5 by blast
qed


theorem LenetSigmoid_forward_formula_witness:
  "\<exists>m y. LenetSigmoid (\<lambda>name idx. real (sum_list idx)) 2 2 = Inr m
     \<and> bias (S m) = None \<and> A m = 1.7159
     \<and> LenetSigmoid_forward m \<lparr>shape = [2], data = [2, - 1]\<rparr> = Inr y
     \<and> shape y = [2]
     \<and> item y [0] = 1.7159 * tanh (- 1)"
proof -
  let ?ini = "\<lambda>(name :: string) (idx :: nat list). real (sum_list idx)"
  let ?x = "\<lparr>shape = [2], data = [2, - 1]\<rparr>"
  obtain m where m: "LenetSigmoid ?ini 2 2 = Inr m"
    by (simp add: LenetSigmoid_def Linear_def)
  from LenetSigmoid_forward_formula [OF m, of ?x "[]" "[]" 0]
  show ?thesis using m by (simp add: item_def upt_2)
qed

subsection \<open>Shapes through the stages\<close>

lemma Conv2d_forward_shape:
  assumes "shape x = [b, cin, h, w]" and "k \<le> h" and "k \<le> w"
  shows "\<exists>y. Conv2d_forward (Conv2d ini cin cout k) x = Inr y
     \<and> shape y = [b, cout, h - k + 1, w - k + 1]"
  using assms by (simp add: Conv2d_forward_def conv2d_batched_def Conv2d_def)

lemma Linear_forward_shape:
  assumes "shape x = pre @ [in_features l]"
  shows "\<exists>y. Linear_forward l x = Inr y \<and> shape y = pre @ [out_features l]"
  using assms by (simp add: Linear_forward_def)

lemma LenetSigmoid_forward_shape:
  assumes "LenetSigmoid ini n_in n_out = Inr m" and "shape x = pre @ [nat n_in]"
  shows "\<exists>y. LenetSigmoid_forward m x = Inr y \<and> shape y = pre @ [nat n_out]"
proof -
  note m = LenetSigmoid_Inr [OF assms(1)]
  obtain z where "Linear_forward (S m) x = Inr z" and "shape z = pre @ [nat n_out]"
    using Linear_forward_shape [of x pre "S m"] assms(2) m by auto
  then show ?thesis by (simp add: LenetSigmoid_forward_data)
qed

lemma LenetPool_forward_shape:
  assumes "LenetPool ini 2 2 n_in n_out = Inr p" and "shape x = [b, c, h, w]"
    and "1 \<le> c" and "2 \<le> h" and "2 \<le> w" and "w div 2 = nat n_in"
  shows "\<exists>y. LenetPool_forward p x = Inr y \<and> shape y = [b, c, h div 2, nat n_out]"
proof -
  note p = LenetPool_Inr [OF assms(1)]
  have hd: "(h - 2) div 2 + 1 = h div 2" and wd: "(w - 2) div 2 + 1 = w div 2"
    using assms(4,5) by presburger+
  obtain z where z: "LPPool2d_forward (LPPool2d 1 2 2) x = Inr z"
    and sz: "shape z = [b, c, h div 2] @ [nat n_in]"
    using sum_pool_forward [OF assms(2,3,4,5)] hd wd assms(6) by simp
  have "in_features (linear_m p) = nat n_in" "out_features (linear_m p) = nat n_out"
    using p by simp_all
  with Linear_forward_shape [of z "[b, c, h div 2]" "linear_m p"] sz
  obtain y where "Linear_forward (linear_m p) z = Inr y" "shape y = [b, c, h div 2, nat n_out]"
    by auto
  then show ?thesis using p z by (simp add: LenetPool_forward_def)
qed

lemma Flatten_forward_shape:
  assumes "shape x = n # d # rest"
  shows "\<exists>y. Flatten_forward x = Inr y \<and> shape y = [n, prod_list (d # rest)]"
  using assms by (simp add: Flatten_forward_def)

lemma Linear_Inr:
  "Linear ini n_in n_out has_bias = Inr l \<Longrightarrow>
     0 \<le> n_in \<and> 0 \<le> n_out \<and> in_features l = nat n_in \<and> out_features l = nat n_out
     \<and> weight l = mk [nat n_out, nat n_in] (ini ''weight'')
     \<and> bias l = (if has_bias then Some (mk [nat n_out] (ini ''bias'')) else None)"
  by (auto simp: Linear_def split: if_splits)

lemma Linear_ok: "0 \<le> n_in \<Longrightarrow> 0 \<le> n_out \<Longrightarrow> \<exists>l. Linear ini n_in n_out has_bias = Inr l"
  by (simp add: Linear_def)

lemma LenetSigmoid_ok: "0 \<le> n_in \<Longrightarrow> 0 \<le> n_out \<Longrightarrow> \<exists>m. LenetSigmoid ini n_in n_out = Inr m"
  by (simp add: LenetSigmoid_def Linear_def)

lemma LenetPool_ok: "0 \<le> n_in \<Longrightarrow> 0 \<le> n_out \<Longrightarrow> \<exists>p. LenetPool ini ks st n_in n_out = Inr p"
  by (simp add: LenetPool_def Linear_def Let_def)

lemma ebind_Inr: "ebind m f = Inr v \<longleftrightarrow> (\<exists>u. m = Inr u \<and> f u = Inr v)"
  by (cases m) simp_all

lemma Lenet_Inr:
  assumes "Lenet ini num_classes = Inr net"
  shows "c1 net = Conv2d (scope ''c1'' ini) 1 6 5"
    and "LenetSigmoid (scope ''a1'' ini) 28 28 = Inr (a1 net)"
    and "LenetPool (scope ''s2'' ini) 2 2 14 14 = Inr (s2 net)"
    and "LenetSigmoid (scope ''a2'' ini) 14 14 = Inr (a2 net)"
    and "c3 net = Conv2d (scope ''c3'' ini) 6 16 5"
    and "LenetSigmoid (scope ''a3'' ini) 10 10 = Inr (a3 net)"
    and "LenetPool (scope ''s4'' ini) 2 2 5 5 = Inr (s4 net)"
    and "LenetSigmoid (scope ''a4'' ini) 5 5 = Inr (a4 net)"
    and "Linear (scope ''f5'' ini) 400 120 True = Inr (f5 net)"
    and "LenetSigmoid (scope ''a5'' ini) 120 120 = Inr (a5 net)"
    and "Linear (scope ''f6'' ini) 120 84 True = Inr (f6 net)"
    and "LenetSigmoid (scope ''a6'' ini) 84 84 = Inr (a6 net)"
    and "Linear (scope ''f7'' ini) 84 num_classes True = Inr (f7 net)"
    and "layers net = [Conv2d_mod (c1 net), LenetSigmoid_mod (a1 net),
                     LenetPool_mod (s2 net), LenetSigmoid_mod (a2 net),
                     Conv2d_mod (c3 net), LenetSigmoid_mod (a3 net),
                     LenetPool_mod (s4 net), LenetSigmoid_mod (a4 net),
                     Flatten_mod,
                     Linear_mod (f5 net), LenetSigmoid_mod (a5 net),
                     Linear_mod (f6 net), LenetSigmoid_mod (a6 net),
                     Linear_mod (f7 net)]"
  using assms unfolding Lenet_def Let_def ebind_Inr by auto

lemma Lenet_ok:
  assumes "0 \<le> num_classes"
  shows "\<exists>net. Lenet ini num_classes = Inr net"
proof -
  obtain a1v a2v a3v a4v a5v a6v where
    "LenetSigmoid (scope ''a1'' ini) 28 28 = Inr a1v" "LenetSigmoid (scope ''a2'' ini) 14 14 = Inr a2v"
    "LenetSigmoid (scope ''a3'' ini) 10 10 = Inr a3v" "LenetSigmoid (scope ''a4'' ini) 5 5 = Inr a4v"
    "LenetSigmoid (scope ''a5'' ini) 120 120 = Inr a5v" "LenetSigmoid (scope ''a6'' ini) 84 84 = Inr a6v"
    using LenetSigmoid_ok [of 28 28 "scope ''a1'' ini"] LenetSigmoid_ok [of 14 14 "scope ''a2'' ini"]
      LenetSigmoid_ok [of 10 10 "scope ''a3'' ini"] LenetSigmoid_ok [of 5 5 "scope ''a4'' ini"]
      LenetSigmoid_ok [of 120 120 "scope ''a5'' ini"] LenetSigmoid_ok [of 84 84 "scope ''a6'' ini"]
    by auto
  moreover obtain s2v s4v where
    "LenetPool (scope ''s2'' ini) 2 2 14 14 = Inr s2v" "LenetPool (scope ''s4'' ini) 2 2 5 5 = Inr s4v"
    using LenetPool_ok [of 14 14 "scope ''s2'' ini" 2 2] LenetPool_ok [of 5 5 "scope ''s4'' ini" 2 2]
    by auto
  moreover obtain f5v f6v f7v where
    "Linear (scope ''f5'' ini) 400 120 True = Inr f5v" "Linear (scope ''f6'' ini) 120 84 True = Inr f6v"
    "Linear (scope ''f7'' ini) 84 num_classes True = Inr f7v"
    using Linear_ok [of 400 120 "scope ''f5'' ini" True] Linear_ok [of 120 84 "scope ''f6'' ini" True]
      Linear_ok [of 84 num_classes "scope ''f7'' ini" True] assms
    by auto
  ultimately show ?thesis by (simp add: Lenet_def Let_def)
qed


lemma Linear_forward_wf:
  "Linear_forward l x = Inr y \<Longrightarrow> length (data y) = prod_list (shape y)"
  by (auto simp: Linear_forward_def split: if_splits)

lemma Lenet_run_layers:
  assumes "Lenet ini num_classes = Inr net" and "shape x = [b, 1, 32, 32]"
  shows "\<exists>y. run_layers (layers net) x [] =
        ([(''Conv2d'', [b, 6, 28, 28]), (''LenetSigmoid'', [b, 6, 28, 28]),
          (''LenetPool'', [b, 6, 14, 14]), (''LenetSigmoid'', [b, 6, 14, 14]),
          (''Conv2d'', [b, 16, 10, 10]), (''LenetSigmoid'', [b, 16, 10, 10]),
          (''LenetPool'', [b, 16, 5, 5]), (''LenetSigmoid'', [b, 16, 5, 5]),
          (''Flatten'', [b, 400]),
          (''Linear'', [b, 120]), (''LenetSigmoid'', [b, 120]),
          (''Linear'', [b, 84]), (''LenetSigmoid'', [b, 84]),
          (''Linear'', [b, nat num_classes])], Inr y)
     \<and> shape y = [b, nat num_classes] \<and> length (data y) = prod_list (shape y)"
proof -
  note n = Lenet_Inr [OF assms(1)]
  note f5 = Linear_Inr [OF n(9)] and f6 = Linear_Inr [OF n(11)] and f7 = Linear_Inr [OF n(13)]
  obtain y1 where y1: "Conv2d_forward (c1 net) x = Inr y1" "shape y1 = [b, 6, 28, 28]"
    using Conv2d_forward_shape [of x b 1 32 32 5 "scope ''c1'' ini" 6] assms(2) n(1) by auto
  obtain y2 where y2: "LenetSigmoid_forward (a1 net) y1 = Inr y2" "shape y2 = [b, 6, 28, 28]"
    using LenetSigmoid_forward_shape [OF n(2), of y1 "[b, 6, 28]"] y1(2) by auto
  obtain y3 where y3: "LenetPool_forward (s2 net) y2 = Inr y3" "shape y3 = [b, 6, 14, 14]"
    using LenetPool_forward_shape [OF n(3) y2(2)] by auto
  obtain y4 where y4: "LenetSigmoid_forward (a2 net) y3 = Inr y4" "shape y4 = [b, 6, 14, 14]"
    using LenetSigmoid_forward_shape [OF n(4), of y3 "[b, 6, 14]"] y3(2) by auto
  obtain y5 where y5: "Conv2d_forward (c3 net) y4 = Inr y5" "shape y5 = [b, 16, 10, 10]"
    using Conv2d_forward_shape [of y4 b 6 14 14 5 "scope ''c3'' ini" 16] y4(2) n(5) by auto
  obtain y6 where y6: "LenetSigmoid_forward (a3 net) y5 = Inr y6" "shape y6 = [b, 16, 10, 10]"
    using LenetSigmoid_forward_shape [OF n(6), of y5 "[b, 16, 10]"] y5(2) by auto
  obtain y7 where y7: "LenetPool_forward (s4 net) y6 = Inr y7" "shape y7 = [b, 16, 5, 5]"
    using LenetPool_forward_shape [OF n(7) y6(2)] by auto
  obtain y8 where y8: "LenetSigmoid_forward (a4 net) y7 = Inr y8" "shape y8 = [b, 16, 5, 5]"
    using LenetSigmoid_forward_shape [OF n(8), of y7 "[b, 16, 5]"] y7(2) by auto
  obtain y9 where y9: "Flatten_forward y8 = Inr y9" "shape y9 = [b, 400]"
    using Flatten_forward_shape [OF y8(2)] by auto
  obtain y10 where y10: "Linear_forward (f5 net) y9 = Inr y10" "shape y10 = [b, 120]"
    using Linear_forward_shape [of y9 "[b]" "f5 net"] y9(2) f5 by auto
  obtain y11 where y11: "LenetSigmoid_forward (a5 net) y10 = Inr y11" "shape y11 = [b, 120]"
    using LenetSigmoid_forward_shape [OF n(10), of y10 "[b]"] y10(2) by auto
  obtain y12 where y12: "Linear_forward (f6 net) y11 = Inr y12" "shape y12 = [b, 84]"
    using Linear_forward_shape [of y11 "[b]" "f6 net"] y11(2) f6 by auto
  obtain y13 where y13: "LenetSigmoid_forward (a6 net) y12 = Inr y13" "shape y13 = [b, 84]"
    using LenetSigmoid_forward_shape [OF n(12), of y12 "[b]"] y12(2) by auto
  obtain y14 where y14: "Linear_forward (f7 net) y13 = Inr y14" "shape y14 = [b, nat num_classes]"
    using Linear_forward_shape [of y13 "[b]" "f7 net"] y13(2) f7 by auto
  have "run_layers (layers net) x [] =
        ([(''Conv2d'', [b, 6, 28, 28]), (''LenetSigmoid'', [b, 6, 28, 28]),
          (''LenetPool'', [b, 6, 14, 14]), (''LenetSigmoid'', [b, 6, 14, 14]),
          (''Conv2d'', [b, 16, 10, 10]), (''LenetSigmoid'', [b, 16, 10, 10]),
          (''LenetPool'', [b, 16, 5, 5]), (''LenetSigmoid'', [b, 16, 5, 5]),
          (''Flatten'', [b, 400]),
          (''Linear'', [b, 120]), (''LenetSigmoid'', [b, 120]),
          (''Linear'', [b, 84]), (''LenetSigmoid'', [b, 84]),
          (''Linear'', [b, nat num_classes])], Inr y14)"
    by (simp add: n(14) y1 y2 y3 y4 y5 y6 y7 y8 y9 y10 y11 y12 y13 y14)
  with y14(2) Linear_forward_wf [OF y14(1)] show ?thesis by blast
qed

text \<open>
  C1. For a batch size \<open>b \<ge> 1\<close> and a class count with which the network can be built,
  running an input of shape \<open>(b, 1, 32, 32)\<close> through the fourteen stages one after the
  other succeeds, and the shapes after the stages are \<open>(b, 6, 28, 28)\<close> twice,
  \<open>(b, 6, 14, 14)\<close> twice, \<open>(b, 16, 10, 10)\<close> twice, \<open>(b, 16, 5, 5)\<close> twice, \<open>(b, 400)\<close>,
  \<open>(b, 120)\<close> twice, \<open>(b, 84)\<close> twice and \<open>(b, num_classes)\<close>: the lines that
  \<^verbatim>\<open>run_tests\<close> prints.
\<close>
theorem Lenet_stage_shapes:
  assumes "1 \<le> b" and "0 \<le> num_classes" and "shape x = [b, 1, 32, 32]"
  shows "\<exists>net y. Lenet ini num_classes = Inr net
     \<and> run_layers (layers net) x [] =
        ([(''Conv2d'', [b, 6, 28, 28]), (''LenetSigmoid'', [b, 6, 28, 28]),
          (''LenetPool'', [b, 6, 14, 14]), (''LenetSigmoid'', [b, 6, 14, 14]),
          (''Conv2d'', [b, 16, 10, 10]), (''LenetSigmoid'', [b, 16, 10, 10]),
          (''LenetPool'', [b, 16, 5, 5]), (''LenetSigmoid'', [b, 16, 5, 5]),
          (''Flatten'', [b, 400]),
          (''Linear'', [b, 120]), (''LenetSigmoid'', [b, 120]),
          (''Linear'', [b, 84]), (''LenetSigmoid'', [b, 84]),
          (''Linear'', [b, nat num_classes])], Inr y)
     \<and> shape y = [b, nat num_classes]"
proof -
  obtain net where net: "Lenet ini num_classes = Inr net"
    using Lenet_ok [OF assms(2)] by blast
  from Lenet_run_layers [OF net assms(3)] net show ?thesis by blast
qed

theorem Lenet_stage_shapes_witness:
  "\<exists>net y. Lenet (\<lambda>name idx. 0) 10 = Inr net
     \<and> run_layers (layers net) (zeros [1, 1, 32, 32]) [] =
        ([(''Conv2d'', [1, 6, 28, 28]), (''LenetSigmoid'', [1, 6, 28, 28]),
          (''LenetPool'', [1, 6, 14, 14]), (''LenetSigmoid'', [1, 6, 14, 14]),
          (''Conv2d'', [1, 16, 10, 10]), (''LenetSigmoid'', [1, 16, 10, 10]),
          (''LenetPool'', [1, 16, 5, 5]), (''LenetSigmoid'', [1, 16, 5, 5]),
          (''Flatten'', [1, 400]),
          (''Linear'', [1, 120]), (''LenetSigmoid'', [1, 120]),
          (''Linear'', [1, 84]), (''LenetSigmoid'', [1, 84]),
          (''Linear'', [1, 10])], Inr y)
     \<and> shape y = [1, 10]"
  using Lenet_stage_shapes [of 1 10 "zeros [1, 1, 32, 32]" "\<lambda>name idx. 0"]
  by (simp add: zeros_def)

subsection \<open>The forward pass and the loop of \<^verbatim>\<open>run_tests\<close>\<close>

lemma run_layers_snd: "snd (run_layers ls x out) = Sequential_forward module_forward ls x"
  by (induction ls arbitrary: x out) (simp_all split: sum.splits)

lemma Sequential_forward_snoc:
  "Sequential_forward app (ms @ [m]) x = ebind (Sequential_forward app ms x) (app m)"
proof (induction ms arbitrary: x)
  case Nil
  show ?case by (cases "app m x") simp_all
next
  case (Cons a ms)
  then show ?case by (cases "app a x") simp_all
qed

text \<open>
  C10. Applying the stages one at a time, as the loop of \<^verbatim>\<open>run_tests\<close> does over
  \<^verbatim>\<open>model.layers\<close>, returns what one call of \<^verbatim>\<open>Lenet.forward\<close> returns on the same input,
  whether that is a tensor or a raise; so \<^verbatim>\<open>run_tests\<close> returns the forward pass of the
  network it builds on the sample it draws.
\<close>
theorem run_tests_loop_is_forward:
  "snd (run_layers (layers net) x out) = Lenet_forward net x
   \<and> snd (run_tests rnd ini shp num_classes) =
       ebind (Lenet ini num_classes) (\<lambda>model. Lenet_forward model (mk shp rnd))"
proof -
  have "snd (run_tests rnd ini shp num_classes) =
       ebind (Lenet ini num_classes) (\<lambda>model. Lenet_forward model (mk shp rnd))"
    by (cases "Lenet ini num_classes")
       (simp_all add: run_tests_def Lenet_forward_def run_layers_snd)
  then show ?thesis by (simp add: Lenet_forward_def run_layers_snd)
qed

lemma Linear_forward_item:
  assumes "Linear ini n_in n_out True = Inr l"
    and "shape x = pre @ [nat n_in]"
    and "in_bounds (pre @ [nat n_out]) (idx @ [j])"
  shows "\<exists>y. Linear_forward l x = Inr y \<and> shape y = pre @ [nat n_out]
     \<and> item y (idx @ [j]) =
         (\<Sum>k\<leftarrow>[0..<nat n_in]. item x (idx @ [k]) * ini ''weight'' [j, k]) + ini ''bias'' [j]"
proof -
  note l = Linear_Inr [OF assms(1)]
  define g where "g = (\<lambda>idx. let j = last idx;
                   s = (\<Sum>k\<leftarrow>[0..<in_features l]. item x (butlast idx @ [k]) * item (weight l) [j, k])
               in case bias l of None \<Rightarrow> s | Some b \<Rightarrow> s + item b [j])"
  have lin: "Linear_forward l x = Inr (mk (pre @ [out_features l]) g)"
    unfolding g_def using assms(2) l by (intro Linear_forward_Inr) simp
  have j: "j < nat n_out" using assms(3) by (simp add: in_bounds_snoc)
  have "item (mk (pre @ [out_features l]) g) (idx @ [j]) = g (idx @ [j])"
    using assms(3) l by (intro item_mk) simp
  also have "\<dots> = (\<Sum>k\<leftarrow>[0..<nat n_in]. item x (idx @ [k]) * ini ''weight'' [j, k]) + ini ''bias'' [j]"
    using l j by (simp add: g_def item_mk) (rule sum_list_upt_cong, simp add: item_mk j)
  finally show ?thesis using lin l by simp
qed

text \<open>
  C7. The last module of the network is the linear layer \<^verbatim>\<open>f7\<close>, the forward pass ends
  with it, and on an input whose last dimension is 84 its output at \<open>(\<dots>, j)\<close> is the
  affine value \<open>(\<Sum>k<84. x[\<dots>, k] * weight[j, k]) + bias[j]\<close> of the parameters
  \<^verbatim>\<open>f7.weight\<close> and \<^verbatim>\<open>f7.bias\<close>: no function is applied to it afterwards.
\<close>
theorem f7_is_affine:
  assumes "Lenet ini num_classes = Inr net"
    and "shape x = pre @ [84]"
    and "in_bounds (pre @ [nat num_classes]) (idx @ [j])"
  shows "last (layers net) = Linear_mod (f7 net)
     \<and> Lenet_forward net x0 =
         ebind (Sequential_forward module_forward (butlast (layers net)) x0) (Linear_forward (f7 net))
     \<and> (\<exists>y. Linear_forward (f7 net) x = Inr y \<and> shape y = pre @ [nat num_classes]
          \<and> item y (idx @ [j]) =
              (\<Sum>k\<leftarrow>[0..<84]. item x (idx @ [k]) * ini ''f7.weight'' [j, k]) + ini ''f7.bias'' [j])"
proof -
  note n = Lenet_Inr [OF assms(1)]
  have last: "last (layers net) = Linear_mod (f7 net)"
    by (simp add: n(14))
  have "layers net = butlast (layers net) @ [Linear_mod (f7 net)]"
    by (simp add: n(14))
  then have "Lenet_forward net x0 =
      Sequential_forward module_forward (butlast (layers net) @ [Linear_mod (f7 net)]) x0"
    by (simp add: Lenet_forward_def)
  also have "\<dots> = ebind (Sequential_forward module_forward (butlast (layers net)) x0) (Linear_forward (f7 net))"
    unfolding Sequential_forward_snoc by (rule arg_cong [where f = "ebind _"]) (simp add: fun_eq_iff)
  finally have fw: "Lenet_forward net x0 =
      ebind (Sequential_forward module_forward (butlast (layers net)) x0) (Linear_forward (f7 net))" .
  from Linear_forward_item [OF n(13), of x pre idx j] assms(2,3)
  have "\<exists>y. Linear_forward (f7 net) x = Inr y \<and> shape y = pre @ [nat num_classes]
          \<and> item y (idx @ [j]) =
              (\<Sum>k\<leftarrow>[0..<84]. item x (idx @ [k]) * ini ''f7.weight'' [j, k]) + ini ''f7.bias'' [j]"
    by (simp add: scope_def)
  with last fw show ?thesis by blast
qed


theorem f7_is_affine_witness:
  "\<exists>net y. Lenet (\<lambda>name idx. 1) 10 = Inr net
     \<and> last (layers net) = Linear_mod (f7 net)
     \<and> Linear_forward (f7 net) (zeros [1, 84]) = Inr y
     \<and> shape y = [1, 10] \<and> item y [0, 3] = 1"
proof -
  obtain net where net: "Lenet (\<lambda>name idx. 1) 10 = Inr net"
    using Lenet_ok [of 10] by auto
  have z: "(\<Sum>k\<leftarrow>[0..<84]. item (zeros [1, 84]) ([0] @ [k]) * 1) = (\<Sum>k\<leftarrow>[0..<84]. 0)"
    by (rule sum_list_upt_cong) (simp add: zeros_def item_mk)
  from f7_is_affine [OF net, of "zeros [1, 84]" "[1]" "[0]" 3]
  obtain y where "last (layers net) = Linear_mod (f7 net)"
    and "Linear_forward (f7 net) (zeros [1, 84]) = Inr y"
    and "shape y = [1, 10]" and "item y [0, 3] = 1"
    using z by (auto simp: zeros_def)
  with net show ?thesis by blast
qed

text \<open>
  C9, as the code has it. The source checks nothing about \<^verbatim>\<open>num_classes\<close>. Construction
  fails, with the library's \<^verbatim>\<open>RuntimeError\<close> for a negative size, exactly when
  \<^verbatim>\<open>num_classes\<close> is negative; with \<^verbatim>\<open>num_classes = 0\<close> it succeeds, and the output
  stage then has width 0.
\<close>
theorem Lenet_construction:
  "(Lenet ini num_classes = Inl RuntimeError \<longleftrightarrow> num_classes < 0)
   \<and> ((\<exists>net. Lenet ini num_classes = Inr net \<and> out_features (f7 net) = nat num_classes)
        \<longleftrightarrow> 0 \<le> num_classes)"
proof (cases "0 \<le> num_classes")
  case True
  then obtain net where net: "Lenet ini num_classes = Inr net"
    using Lenet_ok by blast
  from Linear_Inr [OF Lenet_Inr(13) [OF net]] net True show ?thesis by auto
next
  case False
  then have "Lenet ini num_classes = Inl RuntimeError"
    by (simp add: Lenet_def Let_def LenetSigmoid_def LenetPool_def Linear_def)
  with False show ?thesis by simp
qed

text \<open>
  C9 as stated fails at \<^verbatim>\<open>num_classes = 0\<close>: the network is built, and its forward pass on
  a batch of one image returns a tensor of shape \<open>(1, 0)\<close>.
\<close>

theorem Lenet_zero_classes_counterexample:
  "\<exists>net y. Lenet (\<lambda>name idx. 0) 0 = Inr net
     \<and> Lenet_forward net (zeros [1, 1, 32, 32]) = Inr y \<and> shape y = [1, 0]"
proof -
  obtain net where net: "Lenet (\<lambda>name idx. 0) 0 = Inr net"
    using Lenet_ok [of 0] by auto
  from Lenet_run_layers [OF net, of "zeros [1, 1, 32, 32]" 1]
  obtain out y where "run_layers (layers net) (zeros [1, 1, 32, 32]) [] = (out, Inr y)"
    and "shape y = [1, 0]"
    by (auto simp: zeros_def)
  then have "Lenet_forward net (zeros [1, 1, 32, 32]) = Inr y" "shape y = [1, 0]"
    using run_layers_snd [of "layers net" "zeros [1, 1, 32, 32]" "[]"]
    by (simp_all add: Lenet_forward_def)
  with net show ?thesis by blast
qed

subsection \<open>Two forward passes in a row\<close>

lemma randn_advances: "snd (randn noise shp g) = g + prod_list shp"
  by (simp add: randn_def)

lemma Sequential_call_frame:
  assumes "\<And>m x g. m \<in> set ms \<Longrightarrow> app m x g = (fwd m x, m, g)"
  shows "Sequential_call app ms x g = (Sequential_forward fwd ms x, ms, g)"
  using assms
proof (induction ms arbitrary: x g)
  case Nil
  show ?case by simp
next
  case (Cons m ms)
  have m: "app m x g = (fwd m x, m, g)" using Cons.prems by simp
  have ih: "\<And>y. Sequential_call app ms y g = (Sequential_forward fwd ms y, ms, g)"
    using Cons.prems by (intro Cons.IH) simp
  show ?case by (cases "fwd m x") (simp_all add: m ih)
qed

lemma pool_module_call_frame:
  "pool_module_call m x g = (pool_module_forward m x, m, g)"
  by (cases m) (simp_all add: LPPool2d_call_def Linear_call_def)

lemma LenetPool_call_frame: "LenetPool_call p x g = (LenetPool_forward p x, p, g)"
  by (simp add: LenetPool_call_def LenetPool_forward_def
      Sequential_call_frame [of _ pool_module_call pool_module_forward] pool_module_call_frame)

lemma LenetSigmoid_call_frame: "LenetSigmoid_call m x g = (LenetSigmoid_forward m x, m, g)"
  by (cases "Linear_forward (S m) x")
     (simp_all add: LenetSigmoid_call_def LenetSigmoid_forward_def Linear_call_def Tanh_call_def)

lemma module_call_frame: "module_call m x g = (module_forward m x, m, g)"
  by (cases m)
     (simp_all add: Conv2d_call_def LenetSigmoid_call_frame LenetPool_call_frame
        Flatten_call_def Linear_call_def)

lemma Lenet_call_frame: "Lenet_call net x g = (Lenet_forward net x, net, g)"
  by (simp add: Lenet_call_def Lenet_forward_def
      Sequential_call_frame [of _ module_call module_forward] module_call_frame)

text \<open>
  C8. Take fixed parameter values, a class count with which the network can be built, and
  any state of the random generator. Two forward passes in a row on the batch of zeros of
  shape \<open>(1, 1, 32, 32)\<close>, the second on the network and the generator as the first left
  them, return the same tensor of shape \<open>(1, num_classes)\<close>, with \<open>num_classes\<close> elements:
  no call made during a pass assigns to a module or draws from the generator, so each
  pass leaves the network and the generator as it found them.
\<close>

theorem Lenet_call_twice_same_output:
  assumes "0 \<le> num_classes"
  shows "\<exists>net y. Lenet ini num_classes = Inr net
     \<and> shape y = [1, nat num_classes] \<and> length (data y) = nat num_classes
     \<and> (case Lenet_call net (zeros [1, 1, 32, 32]) g of
          (r1, net1, g1) \<Rightarrow>
            (case Lenet_call net1 (zeros [1, 1, 32, 32]) g1 of
               (r2, net2, g2) \<Rightarrow>
                 r1 = Inr y \<and> r2 = Inr y \<and> net1 = net \<and> g1 = g \<and> net2 = net \<and> g2 = g))"
proof -
  obtain net where net: "Lenet ini num_classes = Inr net"
    using Lenet_ok [OF assms] by blast
  from Lenet_run_layers [OF net, of "zeros [1, 1, 32, 32]" 1]
  obtain out y where r: "run_layers (layers net) (zeros [1, 1, 32, 32]) [] = (out, Inr y)"
    and sy: "shape y = [1, nat num_classes]" and wf: "length (data y) = prod_list (shape y)"
    by (auto simp: zeros_def)
  have "Lenet_forward net (zeros [1, 1, 32, 32]) = Inr y"
    using run_layers_snd [of "layers net" "zeros [1, 1, 32, 32]" "[]"] r
    by (simp add: Lenet_forward_def)
  then have "case Lenet_call net (zeros [1, 1, 32, 32]) g of
          (r1, net1, g1) \<Rightarrow>
            (case Lenet_call net1 (zeros [1, 1, 32, 32]) g1 of
               (r2, net2, g2) \<Rightarrow>
                 r1 = Inr y \<and> r2 = Inr y \<and> net1 = net \<and> g1 = g \<and> net2 = net \<and> g2 = g)"
    by (simp add: Lenet_call_frame)
  with net sy wf show ?thesis by (intro exI [of _ net] exI [of _ y]) simp
qed

theorem Lenet_call_twice_same_output_witness:
  "\<exists>net y. Lenet (\<lambda>name idx. 1) 10 = Inr net
     \<and> shape y = [1, 10] \<and> length (data y) = 10
     \<and> Lenet_call net (zeros [1, 1, 32, 32]) 7 = (Inr y, net, 7)"
proof -
  let ?z = "zeros [1, 1, 32, 32]"
  from Lenet_call_twice_same_output [of 10 "\<lambda>name idx. 1" 7]
  obtain net y where net: "Lenet (\<lambda>name idx. 1) 10 = Inr net"
    and y: "shape y = [1, 10]" "length (data y) = 10"
    and c: "case Lenet_call net ?z 7 of
          (r1, net1, g1) \<Rightarrow>
            (case Lenet_call net1 ?z g1 of
               (r2, net2, g2) \<Rightarrow>
                 r1 = Inr y \<and> r2 = Inr y \<and> net1 = net \<and> g1 = 7 \<and> net2 = net \<and> g2 = 7)"
    by auto
  obtain r1 net1 g1 where c1: "Lenet_call net ?z 7 = (r1, net1, g1)"
    by (rule prod_cases3)
  obtain r2 net2 g2 where c2: "Lenet_call net1 ?z g1 = (r2, net2, g2)"
    by (rule prod_cases3)
  from c c1 c2 have "r1 = Inr y" "net1 = net" "g1 = 7"
    by simp_all
  with c1 net y show ?thesis by blast
qed

subsection \<open>What \<^verbatim>\<open>LenetPool\<close> accepts and returns\<close>

lemma LenetPool_linear:
  "LenetPool ini ks st n_in n_out = Inr p \<Longrightarrow>
     Linear (scope ''linear'' ini) n_in n_out True = Inr (linear_m p)"
  by (auto simp: LenetPool_def Let_def ebind_Inr)

lemma LenetPool_forward_small:
  assumes "LenetPool ini 2 2 n_in n_out = Inr p" and "shape x = [b, c, h, w]"
    and "h < 2 \<or> w < 2"
  shows "LenetPool_forward p x = Inl RuntimeError"
proof -
  note p = LenetPool_Inr [OF assms(1)]
  have "LPPool2d_forward (LPPool2d 1 2 2) x = Inl RuntimeError"
    using assms(2,3)
    by (auto simp: LPPool2d_forward_def LPPool2d_def lp_pool2d_def avg_pool2d_def
        avg_pool2d_batched_def)
  then show ?thesis using p by (simp add: LenetPool_forward_def)
qed

lemma LenetPool_forward_mismatch:
  assumes "LenetPool ini 2 2 n_in n_out = Inr p" and "shape x = [b, c, h, w]"
    and "1 \<le> c" and "2 \<le> h" and "2 \<le> w" and "w div 2 \<noteq> nat n_in"
  shows "LenetPool_forward p x = Inl RuntimeError"
proof -
  note p = LenetPool_Inr [OF assms(1)]
  have wd: "(w - 2) div 2 + 1 = w div 2"
    using assms(5) by presburger
  obtain z where z: "LPPool2d_forward (LPPool2d 1 2 2) x = Inr z"
    and sz: "last (shape z) = w div 2" "shape z \<noteq> []"
    using sum_pool_forward [OF assms(2,3,4,5)] wd by simp
  have "Linear_forward (linear_m p) z = Inl RuntimeError"
    using p sz assms(6) by (simp add: Linear_forward_def)
  then show ?thesis using p z by (simp add: LenetPool_forward_def)
qed

text \<open>
  C5, as the code has it. \<^verbatim>\<open>LenetPool.__init__\<close> is not given a spatial size and checks
  none. Calling a unit built with window 2 and stride 2 on an input \<open>(b, c, H, W)\<close> with at
  least one channel returns a tensor exactly when \<open>H \<ge> 2\<close>, \<open>W \<ge> 2\<close> and \<open>W div 2\<close> is the
  \<^verbatim>\<open>in_features\<close> of its linear layer, and the tensor then has shape
  \<open>(b, c, H div 2, out_features)\<close>. An odd \<open>H\<close> or \<open>W\<close> is not rejected: the last row or
  column is left out of the windows.
\<close>
theorem LenetPool_forward_defined:
  assumes "LenetPool ini 2 2 n_in n_out = Inr p" and "shape x = [b, c, h, w]" and "1 \<le> c"
  shows "((\<exists>y. LenetPool_forward p x = Inr y) \<longleftrightarrow> 2 \<le> h \<and> 2 \<le> w \<and> w div 2 = nat n_in)
     \<and> (\<forall>y. LenetPool_forward p x = Inr y \<longrightarrow> shape y = [b, c, h div 2, nat n_out])"
proof (cases "2 \<le> h \<and> 2 \<le> w \<and> w div 2 = nat n_in")
  case True
  then show ?thesis
    using LenetPool_forward_shape [OF assms(1,2,3)] by auto
next
  case False
  then have "LenetPool_forward p x = Inl RuntimeError"
    using LenetPool_forward_small [OF assms(1,2)] LenetPool_forward_mismatch [OF assms(1,2,3)]
    by (cases "h < 2 \<or> w < 2") auto
  with False show ?thesis by simp
qed

theorem LenetPool_forward_defined_witness:
  "\<exists>p y. LenetPool (\<lambda>name idx. 0) 2 2 5 5 = Inr p
     \<and> LenetPool_forward p (zeros [2, 16, 11, 11]) = Inr y \<and> shape y = [2, 16, 5, 5]"
proof -
  obtain p where p: "LenetPool (\<lambda>name idx. 0) 2 2 5 5 = Inr p"
    by (simp add: LenetPool_def Linear_def Let_def)
  from LenetPool_forward_defined [OF p, of "zeros [2, 16, 11, 11]" 2 16 11 11]
  obtain y where "LenetPool_forward p (zeros [2, 16, 11, 11]) = Inr y" "shape y = [2, 16, 5, 5]"
    by (auto simp: zeros_def)
  with p show ?thesis by blast
qed

text \<open>
  C5 as stated fails at \<open>H = 15\<close>: the unit \<^verbatim>\<open>LenetPool(2, 2, 14, 14)\<close> of stage S2 is built
  and maps an input of shape \<open>(1, 6, 15, 28)\<close> to an output of shape \<open>(1, 6, 7, 14)\<close>.
\<close>

theorem LenetPool_odd_height_counterexample:
  "\<exists>p y. LenetPool (\<lambda>name idx. 0) 2 2 14 14 = Inr p
     \<and> LenetPool_forward p (zeros [1, 6, 15, 28]) = Inr y \<and> shape y = [1, 6, 7, 14]"
proof -
  obtain p where p: "LenetPool (\<lambda>name idx. 0) 2 2 14 14 = Inr p"
    by (simp add: LenetPool_def Linear_def Let_def)
  from LenetPool_forward_shape [OF p, of "zeros [1, 6, 15, 28]" 1 6 15 28]
  obtain y where "LenetPool_forward p (zeros [1, 6, 15, 28]) = Inr y" "shape y = [1, 6, 7, 14]"
    by (auto simp: zeros_def)
  with p show ?thesis by blast
qed

text \<open>
  C6, as the code has it. After the windowed sum \<open>z\<close> of shape \<open>(b, c, H div 2, W div 2)\<close>,
  the linear layer (weight and bias) is applied along the last axis only, separately for
  every batch element, channel and row: it needs \<open>W div 2 = in_features\<close>, nothing is
  flattened, and the output has shape \<open>(b, c, H div 2, out_features)\<close> with
  \<open>y[n, ch, i, j] = (\<Sum>k. z[n, ch, i, k] * weight[j, k]) + bias[j]\<close>.
\<close>
theorem LenetPool_forward_remap:
  assumes "LenetPool ini 2 2 n_in n_out = Inr p" and "shape x = [b, c, h, w]"
    and "1 \<le> c" and "2 \<le> h" and "2 \<le> w" and "w div 2 = nat n_in"
    and "n < b" and "ch < c" and "i < h div 2" and "j < nat n_out"
  shows "\<exists>z y. LPPool2d_forward (sum_pool p) x = Inr z \<and> shape z = [b, c, h div 2, w div 2]
     \<and> LenetPool_forward p x = Inr y \<and> shape y = [b, c, h div 2, nat n_out]
     \<and> item y [n, ch, i, j] =
         (\<Sum>k\<leftarrow>[0..<nat n_in]. item z [n, ch, i, k] * ini ''linear.weight'' [j, k])
         + ini ''linear.bias'' [j]"
proof -
  note p = LenetPool_Inr [OF assms(1)]
  have hd: "(h - 2) div 2 + 1 = h div 2" and wd: "(w - 2) div 2 + 1 = w div 2"
    using assms(4,5) by presburger+
  obtain z where z: "LPPool2d_forward (LPPool2d 1 2 2) x = Inr z"
    and sz: "shape z = [b, c, h div 2, w div 2]"
    using sum_pool_forward [OF assms(2,3,4,5)] hd wd by simp
  have sz': "shape z = [b, c, h div 2] @ [nat n_in]"
    using sz assms(6) by simp
  have ib: "in_bounds ([b, c, h div 2] @ [nat n_out]) ([n, ch, i] @ [j])"
    using assms(7-10) by simp
  from Linear_forward_item [OF LenetPool_linear [OF assms(1)] sz' ib]
  obtain y where y: "Linear_forward (linear_m p) z = Inr y"
    and sy: "shape y = [b, c, h div 2, nat n_out]"
    and iy: "item y [n, ch, i, j] =
         (\<Sum>k\<leftarrow>[0..<nat n_in]. item z [n, ch, i, k] * ini ''linear.weight'' [j, k])
         + ini ''linear.bias'' [j]"
    by (auto simp: scope_def)
  have "LenetPool_forward p x = Inr y"
    using p z y by (simp add: LenetPool_forward_def)
  with p z sz sy iy show ?thesis by auto
qed

theorem LenetPool_forward_remap_witness:
  "\<exists>p y. LenetPool (\<lambda>name idx. 2) 2 2 1 1 = Inr p
     \<and> LenetPool_forward p \<lparr>shape = [1, 1, 2, 2], data = [1, 2, 3, 4]\<rparr> = Inr y
     \<and> shape y = [1, 1, 1, 1] \<and> item y [0, 0, 0, 0] = 22"
proof -
  let ?x = "\<lparr>shape = [1, 1, 2, 2], data = [1, 2, 3, 4]\<rparr>"
  obtain p where p: "LenetPool (\<lambda>name idx. 2) 2 2 1 1 = Inr p"
    by (simp add: LenetPool_def Linear_def Let_def)
  note sp = LenetPool_Inr [OF p]
  from LenetPool_forward_remap [OF p, of ?x 1 1 2 2 0 0 0 0]
  obtain z y where z: "LPPool2d_forward (sum_pool p) ?x = Inr z"
    and y: "LenetPool_forward p ?x = Inr y" "shape y = [1, 1, 1, 1]"
      "item y [0, 0, 0, 0] = item z [0, 0, 0, 0] * 2 + 2"
    by auto
  have "item z [0, 0, 0, 0] = 10"
    using sum_pool_item [of ?x 1 1 2 2 z 0 0 0 0] z sp by (simp add: item_def)
  with p y show ?thesis by auto
qed

text \<open>
  C6 as stated fails on stage S2: for an input of shape \<open>(1, 6, 28, 28)\<close> the output has
  shape \<open>(1, 6, 14, 14)\<close>, not \<open>(1, 14)\<close>, and the linear layer reads 14 values, not the
  \<open>6 * 14 * 14\<close> of the flattened pooled tensor.
\<close>

theorem LenetPool_not_flattened_counterexample:
  "\<exists>p y. LenetPool (\<lambda>name idx. 0) 2 2 14 14 = Inr p
     \<and> LenetPool_forward p (zeros [1, 6, 28, 28]) = Inr y
     \<and> shape y = [1, 6, 14, 14] \<and> shape y \<noteq> [1, out_features (linear_m p)]
     \<and> in_features (linear_m p) = 14 \<and> in_features (linear_m p) \<noteq> 6 * 14 * 14"
proof -
  obtain p where p: "LenetPool (\<lambda>name idx. 0) 2 2 14 14 = Inr p"
    by (simp add: LenetPool_def Linear_def Let_def)
  from LenetPool_forward_shape [OF p, of "zeros [1, 6, 28, 28]" 1 6 28 28]
  obtain y where "LenetPool_forward p (zeros [1, 6, 28, 28]) = Inr y" "shape y = [1, 6, 14, 14]"
    by (auto simp: zeros_def)
  with p LenetPool_Inr [OF p] show ?thesis by auto
qed

end
